theory Spec2Isabelle
  imports Main "HOL-Library.Sublist"
begin

section \<open>Python strings\<close>

text \<open>
  A Python \<open>str\<close> is modelled as a \<open>string\<close> (a list of \<open>char\<close>). The model is exact on
  ASCII text: \<open>str.lower\<close>, \<open>str.upper\<close>, \<open>str.strip\<close> and the regular-expression
  classes \<open>\s\<close>, \<open>\w\<close>, \<open>\d\<close> are given their ASCII meaning (Python's versions also
  act on code points outside ASCII). Python integers are unbounded, so the number behind
  a limit phrase is a \<open>nat\<close>.
\<close>

abbreviation NL :: string where
  "NL \<equiv> [CHR 0x0A]"

definition lower_char :: "char \<Rightarrow> char" where
  "lower_char c =
     (let n = (of_char c :: nat) in if 65 \<le> n \<and> n \<le> 90 then char_of (n + 32) else c)"

definition upper_char :: "char \<Rightarrow> char" where
  "upper_char c =
     (let n = (of_char c :: nat) in if 97 \<le> n \<and> n \<le> 122 then char_of (n - 32) else c)"

definition str_lower :: "string \<Rightarrow> string" where
  "str_lower s = map lower_char s"

definition str_upper :: "string \<Rightarrow> string" where
  "str_upper s = map upper_char s"

text \<open>\<open>str.isspace\<close> on ASCII: tab, line feed, vertical tab, form feed, carriage return,
  the four separators 0x1C..0x1F and the space. The class \<open>\s\<close> of \<open>re\<close> is the same set.\<close>

definition is_space :: "char \<Rightarrow> bool" where
  "is_space c = (let n = (of_char c :: nat) in (9 \<le> n \<and> n \<le> 13) \<or> (28 \<le> n \<and> n \<le> 32))"

definition is_digit :: "char \<Rightarrow> bool" where
  "is_digit c = (let n = (of_char c :: nat) in 48 \<le> n \<and> n \<le> 57)"

text \<open>The class \<open>\w\<close>: letters, digits and the underscore.\<close>

definition is_word :: "char \<Rightarrow> bool" where
  "is_word c =
     (let n = (of_char c :: nat)
      in (48 \<le> n \<and> n \<le> 57) \<or> (65 \<le> n \<and> n \<le> 90) \<or> n = 95 \<or> (97 \<le> n \<and> n \<le> 122))"

fun starts_with :: "string \<Rightarrow> string \<Rightarrow> bool" where
  "starts_with [] s = True"
| "starts_with (p # ps) [] = False"
| "starts_with (p # ps) (c # cs) = (if p = c then starts_with ps cs else False)"

text \<open>\<open>p in s\<close> for two strings.\<close>

fun str_in :: "string \<Rightarrow> string \<Rightarrow> bool" where
  "str_in p [] = (p = [])"
| "str_in p (c # cs) = (if starts_with p (c # cs) then True else str_in p cs)"

text \<open>\<open>s.find(p)\<close>: the offset of the leftmost occurrence.\<close>

fun str_find :: "string \<Rightarrow> string \<Rightarrow> nat option" where
  "str_find p [] = (if p = [] then Some 0 else None)"
| "str_find p (c # cs) =
     (if starts_with p (c # cs) then Some 0 else map_option Suc (str_find p cs))"

lemma starts_with_length: "starts_with p s \<Longrightarrow> length p \<le> length s"
  by (induction p s rule: starts_with.induct) (auto split: if_splits)

lemma str_find_bound: "str_find p s = Some i \<Longrightarrow> i + length p \<le> length s"
proof (induction s arbitrary: i)
  case Nil
  then show ?case by (simp split: if_splits)
next
  case (Cons c cs)
  show ?case
  proof (cases "starts_with p (c # cs)")
    case True
    with Cons.prems starts_with_length [of p "c # cs"] show ?thesis by simp
  next
    case False
    with Cons.prems obtain j where "str_find p cs = Some j" "i = Suc j" by auto
    with Cons.IH [of j] show ?thesis by simp
  qed
qed

text \<open>\<open>s.split(sep)\<close> for a non-empty separator: cut at the leftmost occurrence, go on
  behind it. (Python raises \<open>ValueError\<close> on an empty separator; every separator of the
  program is a non-empty literal.)\<close>

function str_split :: "string \<Rightarrow> string \<Rightarrow> string list" where
  "str_split sep s =
     (if sep = [] then [s]
      else (case str_find sep s of
              None \<Rightarrow> [s]
            | Some i \<Rightarrow> take i s # str_split sep (drop (i + length sep) s)))"
  by pat_completeness auto
termination
proof (relation "measure (\<lambda>(sep, s). length s)")
  show "wf (measure (\<lambda>(sep, s). length s))" by simp
next
  fix sep s :: string and i :: nat
  assume "sep \<noteq> []" and "str_find sep s = Some i"
  then have "0 < length sep" and "i + length sep \<le> length s"
    using str_find_bound by auto
  then have "length s - (i + length sep) < length s"
    by linarith
  then show "((sep, drop (i + length sep) s), (sep, s)) \<in> measure (\<lambda>(sep, s). length s)"
    by simp
qed

declare str_split.simps [simp del]

definition str_strip :: "string \<Rightarrow> string" where
  "str_strip s = rev (dropWhile is_space (rev (dropWhile is_space s)))"

fun str_join :: "string \<Rightarrow> string list \<Rightarrow> string" where
  "str_join sep [] = []"
| "str_join sep [x] = x"
| "str_join sep (x # y # ys) = x @ sep @ str_join sep (y # ys)"

text \<open>\<open>int(ds)\<close> on a string of decimal digits, and \<open>str(n)\<close> on a natural number.\<close>

definition digit_val :: "char \<Rightarrow> nat" where
  "digit_val c = of_char c - 48"

definition int_of_digits :: "string \<Rightarrow> nat" where
  "int_of_digits ds = foldl (\<lambda>a c. 10 * a + digit_val c) 0 ds"

fun str_of_nat :: "nat \<Rightarrow> string" where
  "str_of_nat n =
     (if n < 10 then [char_of (48 + n)]
      else str_of_nat (n div 10) @ [char_of (48 + n mod 10)])"

declare str_of_nat.simps [simp del]

section \<open>The converter's tables\<close>

text \<open>
  The dictionaries of \<open>TextToSQLConverter.__init__\<close>. A Python \<open>dict\<close> iterates in
  insertion order, so each one is an association list in the order of the source. Of
  \<open>table_columns\<close> the program reads only the column names, and of a relationship only
  its two \<open>keys\<close>; the other metadata is left out.
\<close>

definition table_columns :: "(string \<times> string list) list" where
  "table_columns =
     [(''employees'', [''employee_id'', ''name'', ''department'', ''salary'', ''hire_date'',
                       ''role'', ''email'']),
      (''departments'', [''department_id'', ''name'', ''budget'', ''location'', ''head_id'']),
      (''projects'', [''project_id'', ''name'', ''department_id'', ''start_date'', ''end_date'',
                      ''budget'', ''status''])]"

definition table_relationships :: "(string \<times> (string \<times> (string \<times> string)) list) list" where
  "table_relationships =
     [(''employees'', [(''departments'', (''department'', ''name'')),
                       (''projects'', (''department'', ''name''))]),
      (''departments'', [(''employees'', (''name'', ''department'')),
                         (''projects'', (''department_id'', ''department_id''))]),
      (''projects'', [(''departments'', (''department_id'', ''department_id'')),
                      (''employees'', (''department_id'', ''department_id''))])]"

definition aggregate_patterns :: "(string \<times> string list) list" where
  "aggregate_patterns =
     [(''avg'', [''average'', ''mean'', ''typical'']),
      (''sum'', [''total'', ''sum'', ''combined'']),
      (''count'', [''count'', ''number of'', ''how many'']),
      (''max'', [''highest'', ''maximum'', ''most'', ''top'']),
      (''min'', [''lowest'', ''minimum'', ''least'', ''bottom''])]"

definition condition_patterns :: "(string \<times> string list) list" where
  "condition_patterns =
     [(''equals'', [''is'', ''equals'', ''equal to'', ''='']),
      (''greater'', [''greater than'', ''more than'', ''over'', ''above'', ''>'']),
      (''less'', [''less than'', ''under'', ''below'', ''<'']),
      (''between'', [''between'', ''from'', ''range'']),
      (''like'', [''like'', ''contains'', ''similar to''])]"

text \<open>\<open>self.table_columns[table]\<close>. The program indexes it only with keys of the
  dictionary itself, so the lookup never fails.\<close>

definition columns_of :: "string \<Rightarrow> string list" where
  "columns_of t = (case map_of table_columns t of Some cs \<Rightarrow> cs | None \<Rightarrow> [])"

text \<open>The pairs \<open>(table, column)\<close> in the order in which the nested loops
  \<open>for table in self.table_columns: for column in self.table_columns[table]\<close> visit them.\<close>

definition table_column_pairs :: "(string \<times> string) list" where
  "table_column_pairs = concat (map (\<lambda>(t, cs). map (Pair t) cs) table_columns)"

definition qualify :: "string \<Rightarrow> string \<Rightarrow> string" where
  "qualify t c = t @ ''.'' @ c"

section \<open>Tokens and query components\<close>

text \<open>
  The spaCy pipeline \<open>self.nlp\<close> is not part of the program: it is a parameter
  \<open>nlp\<close> that maps the text to its tokens. Of a token the program reads its \<open>text\<close>,
  its dependency label \<open>dep_\<close> and the texts of its right children (\<open>token.rights\<close>).
  \<open>doc.text\<close> is the text handed to \<open>nlp\<close> (spaCy's tokenisation keeps it).
\<close>

record token =
  tok_text :: string
  tok_dep :: string
  tok_rights :: "string list"

record condition =
  cond_column :: string
  cond_operator :: string
  cond_value :: string

record aggregate =
  agg_function :: string
  agg_column :: string

record order_item =
  ord_column :: string
  ord_direction :: string

text \<open>
  The dictionary \<open>components\<close> of \<open>_parse_query\<close>. The two Python sets
  \<open>components['select']['tables']\<close> and \<open>components['select']['columns']\<close> are kept as
  lists without repetition, in the order of the first insertion. The order in which Python
  iterates a set of strings is not the insertion order: it depends on the string hashes,
  which change from one interpreter process to the next. It is the parameter
  \<open>set_order\<close> of every function that iterates one of the sets.
  The field \<open>joins\<close> is never read and is left out.
\<close>

record components =
  sel_tables :: "string list"
  sel_columns :: "string list"
  where_conds :: "condition list"
  group_by :: "string list"
  having :: "string list"
  order_by :: "order_item list"
  limit :: "nat option"
  aggregates :: "aggregate list"

definition empty_components :: components where
  "empty_components =
     \<lparr>sel_tables = [], sel_columns = [], where_conds = [], group_by = [], having = [],
      order_by = [], limit = None, aggregates = []\<rparr>"

text \<open>\<open>s.add(x)\<close> on a set.\<close>

definition set_add :: "string \<Rightarrow> string list \<Rightarrow> string list" where
  "set_add x xs = (if x \<in> set xs then xs else xs @ [x])"

text \<open>What a set iteration order has to satisfy: it enumerates the elements once each.\<close>

definition valid_order :: "(string list \<Rightarrow> string list) \<Rightarrow> bool" where
  "valid_order ord = (\<forall>xs. distinct xs \<longrightarrow> set (ord xs) = set xs \<and> distinct (ord xs))"

section \<open>Entity extraction\<close>

text \<open>
  \<open>_extract_entities\<close>, first loop. For one token, the table test is
  \<open>table.lower() in token.text.lower() or token.text.lower() in table.lower()\<close> and the
  column test is \<open>column.lower() in token.text.lower()\<close>.
\<close>

definition table_match :: "token \<Rightarrow> string \<Rightarrow> bool" where
  "table_match tok t =
     (str_in (str_lower t) (str_lower (tok_text tok)) \<or>
      str_in (str_lower (tok_text tok)) (str_lower t))"

definition column_match :: "token \<Rightarrow> string \<Rightarrow> bool" where
  "column_match tok c = str_in (str_lower c) (str_lower (tok_text tok))"

definition match_tables :: "token \<Rightarrow> string list \<Rightarrow> string list" where
  "match_tables tok tabs =
     foldl (\<lambda>T t. if table_match tok t then set_add t T else T) tabs (map fst table_columns)"

definition match_columns ::
  "token \<Rightarrow> string list \<times> string list \<Rightarrow> string list \<times> string list" where
  "match_columns tok tc =
     foldl (\<lambda>(T, C) (t, c).
              if column_match tok c then (set_add t T, set_add (qualify t c) C) else (T, C))
       tc table_column_pairs"

definition entity_step ::
  "string list \<times> string list \<Rightarrow> token \<Rightarrow> string list \<times> string list" where
  "entity_step tc tok = match_columns tok (match_tables tok (fst tc), snd tc)"

definition match_entities :: "token list \<Rightarrow> string list \<times> string list" where
  "match_entities doc = foldl entity_step ([], []) doc"

text \<open>The fallback: with no column matched, every column of every matched table, the
  tables taken in the iteration order of the set.\<close>

definition all_columns :: "string list \<Rightarrow> string list" where
  "all_columns tabs =
     foldl (\<lambda>C (t, c). set_add (qualify t c) C) []
       (concat (map (\<lambda>t. map (Pair t) (columns_of t)) tabs))"

definition extract_entities ::
  "(string list \<Rightarrow> string list) \<Rightarrow> token list \<Rightarrow> components \<Rightarrow> components" where
  "extract_entities set_order doc comps =
     (let (tabs, cols) = match_entities doc
      in comps\<lparr>sel_tables := tabs,
               sel_columns := (if cols = [] then all_columns (set_order tabs) else cols)\<rparr>)"

section \<open>Condition extraction\<close>

text \<open>
  \<open>_parse_condition_phrase\<close>: the phrase is the texts of the token's right children
  joined by blanks. The operator types and their patterns are tried in the order of the
  dictionary; the first pattern that occurs in the phrase and splits it into exactly two
  parts gives the condition. A pattern that occurs twice or more is passed over.
\<close>

definition condition_pattern_pairs :: "(string \<times> string) list" where
  "condition_pattern_pairs = concat (map (\<lambda>(ot, ps). map (Pair ot) ps) condition_patterns)"

fun try_patterns :: "string \<Rightarrow> (string \<times> string) list \<Rightarrow> condition option" where
  "try_patterns phrase [] = None"
| "try_patterns phrase ((op_type, pattern) # rest) =
     (if str_in pattern phrase then
        (case str_split pattern phrase of
           [l, r] \<Rightarrow> Some \<lparr>cond_column = str_strip l, cond_operator = op_type,
                           cond_value = str_strip r\<rparr>
         | _ \<Rightarrow> try_patterns phrase rest)
      else try_patterns phrase rest)"

definition parse_condition_phrase :: "token \<Rightarrow> condition option" where
  "parse_condition_phrase tok =
     try_patterns (str_join '' '' (tok_rights tok)) condition_pattern_pairs"

definition is_trigger :: "token \<Rightarrow> bool" where
  "is_trigger tok =
     (tok_dep tok \<in> set [''prep'', ''prep_in''] \<and>
      tok_text tok \<in> set [''in'', ''with'', ''where''])"

fun condition_list :: "token list \<Rightarrow> condition list" where
  "condition_list [] = []"
| "condition_list (tok # toks) =
     (if is_trigger tok then
        (case parse_condition_phrase tok of
           Some c \<Rightarrow> c # condition_list toks
         | None \<Rightarrow> condition_list toks)
      else condition_list toks)"

definition extract_conditions :: "token list \<Rightarrow> components \<Rightarrow> components" where
  "extract_conditions doc comps = comps\<lparr>where_conds := where_conds comps @ condition_list doc\<rparr>"

section \<open>Regular expressions\<close>

text \<open>
  The three patterns of the program, each as a matcher anchored at the start of a string
  and returning the groups. An alternation tries its branches from left to right, an
  optional group is tried present before absent, and \<open>\s+\<close>, \<open>\w+\<close>, \<open>\d+\<close> take the
  longest run: giving back part of a run never helps, because the character that follows
  a run of one class in these patterns is of another class. \<open>re.search\<close> returns the
  match at the leftmost position that has one.
\<close>

fun first_some :: "('a \<Rightarrow> 'b option) \<Rightarrow> 'a list \<Rightarrow> 'b option" where
  "first_some f [] = None"
| "first_some f (x # xs) = (case f x of Some y \<Rightarrow> Some y | None \<Rightarrow> first_some f xs)"

definition after_prefix :: "string \<Rightarrow> string \<Rightarrow> string option" where
  "after_prefix p s = (if starts_with p s then Some (drop (length p) s) else None)"

definition skip_spaces1 :: "string \<Rightarrow> string option" where
  "skip_spaces1 s =
     (case s of [] \<Rightarrow> None
      | c # cs \<Rightarrow> if is_space c then Some (dropWhile is_space cs) else None)"

fun re_search :: "(string \<Rightarrow> 'a option) \<Rightarrow> string \<Rightarrow> 'a option" where
  "re_search m [] = m []"
| "re_search m (c # cs) = (case m (c # cs) of Some y \<Rightarrow> Some y | None \<Rightarrow> re_search m cs)"

text \<open>\<open>by\s+(\w+)\<close>: group 1 and the text behind the match.\<close>

definition by_match_at :: "string \<Rightarrow> (string \<times> string) option" where
  "by_match_at s =
     Option.bind (after_prefix ''by'' s) (\<lambda>r1.
     Option.bind (skip_spaces1 r1) (\<lambda>r2.
       if takeWhile is_word r2 = [] then None
       else Some (takeWhile is_word r2, dropWhile is_word r2)))"

lemma after_prefix_length: "after_prefix p s = Some r \<Longrightarrow> length r + length p = length s"
  using starts_with_length [of p s] by (auto simp: after_prefix_def split: if_splits)

lemma skip_spaces1_length: "skip_spaces1 s = Some r \<Longrightarrow> length r < length s"
  by (cases s) (auto simp: skip_spaces1_def less_Suc_eq_le length_dropWhile_le split: if_splits)

lemma by_match_at_length: "by_match_at s = Some (w, r) \<Longrightarrow> length r < length s"
proof -
  assume a: "by_match_at s = Some (w, r)"
  then obtain r1 r2 where r1: "after_prefix ''by'' s = Some r1"
    and r2: "skip_spaces1 r1 = Some r2" and r: "r = dropWhile is_word r2"
    by (auto simp: by_match_at_def Option.bind_eq_Some_conv split: if_splits)
  have "length r \<le> length r2" using r by (simp add: length_dropWhile_le)
  moreover have "length r2 < length r1" using r2 by (rule skip_spaces1_length)
  moreover have "length r1 \<le> length s" using after_prefix_length [OF r1] by simp
  ultimately show ?thesis by simp
qed

text \<open>\<open>re.findall\<close> of that pattern: the matches from left to right, the scan going on
  behind each match.\<close>

function findall_by :: "string \<Rightarrow> string list" where
  "findall_by [] = []"
| "findall_by (c # cs) =
     (case by_match_at (c # cs) of
        Some (w, r) \<Rightarrow> w # findall_by r
      | None \<Rightarrow> findall_by cs)"
  by pat_completeness auto
termination
proof (relation "measure length")
  show "wf (measure length)" by simp
next
  fix c cs x2 w r
  assume "by_match_at (c # cs) = Some x2" and "(w, r) = x2"
  then have "length r < length (c # cs)" using by_match_at_length [of "c # cs" w r] by simp
  then show "(r, c # cs) \<in> measure length" by simp
next
  fix c :: char and cs :: string
  show "(cs, c # cs) \<in> measure length" by simp
qed

text \<open>\<open>(?:order|sort)(?:ed)?\s+by\s+(\w+)\s*(desc(?:ending)?|asc(?:ending)?)?\<close>:
  groups 1 and 2.\<close>

definition order_modifier :: "string \<Rightarrow> string option" where
  "order_modifier r =
     (if starts_with ''desc'' r then
        Some (''desc'' @ (if starts_with ''ending'' (drop 4 r) then ''ending'' else []))
      else if starts_with ''asc'' r then
        Some (''asc'' @ (if starts_with ''ending'' (drop 3 r) then ''ending'' else []))
      else None)"

definition order_tail :: "string \<Rightarrow> (string \<times> string option) option" where
  "order_tail r =
     Option.bind (skip_spaces1 r) (\<lambda>r1.
     Option.bind (after_prefix ''by'' r1) (\<lambda>r2.
     Option.bind (skip_spaces1 r2) (\<lambda>r3.
       if takeWhile is_word r3 = [] then None
       else Some (takeWhile is_word r3,
                  order_modifier (dropWhile is_space (dropWhile is_word r3))))))"

definition order_match_at :: "string \<Rightarrow> (string \<times> string option) option" where
  "order_match_at s =
     first_some (\<lambda>kw.
       Option.bind (after_prefix kw s) (\<lambda>r.
         first_some (\<lambda>ed. Option.bind (after_prefix ed r) order_tail) [''ed'', []]))
       [''order'', ''sort'']"

text \<open>\<open>(?:top|first|limit)\s+(\d+)\<close>: group 1.\<close>

definition limit_match_at :: "string \<Rightarrow> string option" where
  "limit_match_at s =
     first_some (\<lambda>kw.
       Option.bind (after_prefix kw s) (\<lambda>r1.
       Option.bind (skip_spaces1 r1) (\<lambda>r2.
         if takeWhile is_digit r2 = [] then None else Some (takeWhile is_digit r2))))
       [''top'', ''first'', ''limit'']"

section \<open>Aggregates, grouping, ordering, limit\<close>

text \<open>The three passes below read \<open>doc.text.lower()\<close> only.\<close>

definition aggregate_pattern_pairs :: "(string \<times> string) list" where
  "aggregate_pattern_pairs = concat (map (\<lambda>(a, ps). map (Pair a) ps) aggregate_patterns)"

definition aggregate_list :: "string \<Rightarrow> aggregate list" where
  "aggregate_list text =
     concat (map (\<lambda>(agg_type, pattern).
                    if str_in pattern text then
                      map (\<lambda>(t, c). \<lparr>agg_function = str_upper agg_type, agg_column = qualify t c\<rparr>)
                        (filter (\<lambda>(t, c). str_in (str_lower c) text) table_column_pairs)
                    else [])
               aggregate_pattern_pairs)"

definition group_list :: "string \<Rightarrow> string list" where
  "group_list text =
     concat (map (\<lambda>m. map (\<lambda>(t, cs). qualify t m) (filter (\<lambda>(t, cs). m \<in> set cs) table_columns))
               (findall_by text))"

definition extract_aggregations :: "string \<Rightarrow> components \<Rightarrow> components" where
  "extract_aggregations doc_text comps =
     (let text = str_lower doc_text
      in comps\<lparr>aggregates := aggregates comps @ aggregate_list text,
               group_by := group_by comps @ group_list text\<rparr>)"

definition order_list :: "string \<Rightarrow> order_item list" where
  "order_list text =
     (case re_search order_match_at text of
        None \<Rightarrow> []
      | Some (column, modifier) \<Rightarrow>
          (let direction =
                 (case modifier of
                    None \<Rightarrow> ''ASC''
                  | Some m \<Rightarrow> if str_in ''desc'' m then ''DESC'' else ''ASC'')
           in map (\<lambda>(t, cs). \<lparr>ord_column = qualify t column, ord_direction = direction\<rparr>)
                (filter (\<lambda>(t, cs). column \<in> set cs) table_columns)))"

definition extract_ordering :: "string \<Rightarrow> components \<Rightarrow> components" where
  "extract_ordering doc_text comps =
     comps\<lparr>order_by := order_by comps @ order_list (str_lower doc_text)\<rparr>"

definition extract_limits :: "string \<Rightarrow> components \<Rightarrow> components" where
  "extract_limits doc_text comps =
     (case re_search limit_match_at (str_lower doc_text) of
        None \<Rightarrow> comps
      | Some ds \<Rightarrow> comps\<lparr>limit := Some (int_of_digits ds)\<rparr>)"

definition parse_query ::
  "(string list \<Rightarrow> string list) \<Rightarrow> (string \<Rightarrow> token list) \<Rightarrow> string \<Rightarrow> components" where
  "parse_query set_order nlp text =
     extract_limits text
       (extract_ordering text
          (extract_aggregations text
             (extract_conditions (nlp text)
                (extract_entities set_order (nlp text) empty_components))))"

section \<open>The query builder\<close>

text \<open>
  The exceptions the builder can raise: \<open>tables[0]\<close> and \<open>values[1]\<close> raise
  \<open>IndexError\<close>, a lookup in \<open>table_relationships\<close> raises \<open>KeyError\<close> with the
  missing key, and \<open>convert_to_sql\<close> turns every exception into a \<open>ValueError\<close> that
  carries a message. \<open>str\<close> of a \<open>KeyError\<close> is the \<open>repr\<close> of the key, which for a
  key without quotes, backslashes and control characters is the key between single
  quotes.
\<close>

datatype py_error = IndexError | KeyError string | ValueError string

fun str_of_error :: "py_error \<Rightarrow> string" where
  "str_of_error IndexError = ''list index out of range''"
| "str_of_error (KeyError k) = [CHR 0x27] @ k @ [CHR 0x27]"
| "str_of_error (ValueError m) = m"

definition select_item :: "aggregate \<Rightarrow> string" where
  "select_item agg =
     agg_function agg @ ''('' @ agg_column agg @ '') as '' @ str_lower (agg_function agg) @
     ''_'' @ last (str_split ''.'' (agg_column agg))"

definition select_clause :: "(string list \<Rightarrow> string list) \<Rightarrow> components \<Rightarrow> string" where
  "select_clause set_order comps =
     ''SELECT '' @
     str_join '', ''
       (if aggregates comps \<noteq> [] then map select_item (aggregates comps)
        else set_order (sel_columns comps)) @ NL"

text \<open>The loop \<open>for i in range(1, len(tables))\<close>, with \<open>a = tables[0]\<close>.\<close>

fun join_clauses :: "string \<Rightarrow> string list \<Rightarrow> py_error + string" where
  "join_clauses a [] = Inr []"
| "join_clauses a (t # ts) =
     (case map_of table_relationships a of
        None \<Rightarrow> Inl (KeyError a)
      | Some edges \<Rightarrow>
          (case map_of edges t of
             None \<Rightarrow> Inl (KeyError t)
           | Some (k0, k1) \<Rightarrow>
               (case join_clauses a ts of
                  Inl e \<Rightarrow> Inl e
                | Inr q \<Rightarrow>
                    Inr (''JOIN '' @ t @ '' ON '' @ a @ ''.'' @ k0 @ '' = '' @ t @ ''.'' @ k1 @
                         NL @ q))))"

text \<open>One condition: the text appended to \<open>conditions\<close>, nothing for an operator
  outside the five branches, \<open>IndexError\<close> when a \<open>between\<close> value has no second part.\<close>

definition render_condition :: "condition \<Rightarrow> py_error + string option" where
  "render_condition c =
     (if cond_operator c = ''equals'' then
        Inr (Some (cond_column c @ '' = '' @ [CHR 0x27] @ cond_value c @ [CHR 0x27]))
      else if cond_operator c = ''greater'' then
        Inr (Some (cond_column c @ '' > '' @ cond_value c))
      else if cond_operator c = ''less'' then
        Inr (Some (cond_column c @ '' < '' @ cond_value c))
      else if cond_operator c = ''between'' then
        (case str_split ''and'' (cond_value c) of
           v0 # v1 # vs \<Rightarrow>
             Inr (Some (cond_column c @ '' BETWEEN '' @ str_strip v0 @ '' AND '' @ str_strip v1))
         | _ \<Rightarrow> Inl IndexError)
      else if cond_operator c = ''like'' then
        Inr (Some (cond_column c @ '' LIKE '' @ [CHR 0x27] @ ''%'' @ cond_value c @ ''%'' @
                   [CHR 0x27]))
      else Inr None)"

fun render_conditions :: "condition list \<Rightarrow> py_error + string list" where
  "render_conditions [] = Inr []"
| "render_conditions (c # cs) =
     (case render_condition c of
        Inl e \<Rightarrow> Inl e
      | Inr r \<Rightarrow>
          (case render_conditions cs of
             Inl e \<Rightarrow> Inl e
           | Inr rs \<Rightarrow> Inr ((case r of None \<Rightarrow> [] | Some x \<Rightarrow> [x]) @ rs)))"

definition where_clause :: "condition list \<Rightarrow> py_error + string" where
  "where_clause conds =
     (case render_conditions conds of
        Inl e \<Rightarrow> Inl e
      | Inr rs \<Rightarrow> Inr (if rs = [] then [] else ''WHERE '' @ str_join '' AND '' rs @ NL))"

definition group_clause :: "components \<Rightarrow> string" where
  "group_clause comps =
     (if group_by comps = [] then [] else ''GROUP BY '' @ str_join '', '' (group_by comps) @ NL)"

definition having_clause :: "components \<Rightarrow> string" where
  "having_clause comps =
     (if having comps = [] then [] else ''HAVING '' @ str_join '' AND '' (having comps) @ NL)"

definition order_clause :: "components \<Rightarrow> string" where
  "order_clause comps =
     (if order_by comps = [] then []
      else ''ORDER BY '' @
           str_join '', '' (map (\<lambda>item. ord_column item @ '' '' @ ord_direction item)
                              (order_by comps)) @ NL)"

text \<open>\<open>if components['limit']:\<close> is false for \<open>None\<close> and for \<open>0\<close>.\<close>

definition limit_clause :: "components \<Rightarrow> string" where
  "limit_clause comps =
     (case limit comps of
        None \<Rightarrow> []
      | Some n \<Rightarrow> if n = 0 then [] else ''LIMIT '' @ str_of_nat n)"

definition build_sql_query ::
  "(string list \<Rightarrow> string list) \<Rightarrow> components \<Rightarrow> py_error + string" where
  "build_sql_query set_order comps =
     (case set_order (sel_tables comps) of
        [] \<Rightarrow> Inl IndexError
      | a # ts \<Rightarrow>
          (case join_clauses a ts of
             Inl e \<Rightarrow> Inl e
           | Inr joins \<Rightarrow>
               (case where_clause (where_conds comps) of
                  Inl e \<Rightarrow> Inl e
                | Inr wh \<Rightarrow>
                    Inr (str_strip
                           (select_clause set_order comps @ ''FROM '' @ a @ NL @ joins @ wh @
                            group_clause comps @ having_clause comps @ order_clause comps @
                            limit_clause comps)))))"

text \<open>\<open>convert_to_sql\<close>: the text is lower-cased, parsed and built; any exception is
  raised again as a \<open>ValueError\<close>.\<close>

definition convert_to_sql ::
  "(string list \<Rightarrow> string list) \<Rightarrow> (string \<Rightarrow> token list) \<Rightarrow> string \<Rightarrow> py_error + string" where
  "convert_to_sql set_order nlp text =
     (case build_sql_query set_order (parse_query set_order nlp (str_lower text)) of
        Inl e \<Rightarrow> Inl (ValueError (''Failed to convert text to SQL: '' @ str_of_error e))
      | Inr sql \<Rightarrow> Inr sql)"

text \<open>\<open>self.table_relationships[a][t]['keys']\<close>, when both keys are present.\<close>

definition declared_edge :: "string \<Rightarrow> string \<Rightarrow> (string \<times> string) option" where
  "declared_edge a t = Option.bind (map_of table_relationships a) (\<lambda>edges. map_of edges t)"

section \<open>Sample tokenisations\<close>

text \<open>
  Two concrete values for the parameter \<open>nlp\<close>, used where a statement is evaluated on an
  input: \<open>word_tokens\<close> cuts the text at blanks and gives every word a token without
  right children and with a dependency label that is not \<open>prep\<close>; \<open>fixed_doc\<close> returns a
  given token list.
\<close>

definition plain_token :: "string \<Rightarrow> token" where
  "plain_token w = \<lparr>tok_text = w, tok_dep = ''dep'', tok_rights = []\<rparr>"

definition word_tokens :: "string \<Rightarrow> token list" where
  "word_tokens text = map plain_token (filter (\<lambda>w. w \<noteq> []) (str_split '' '' text))"

definition fixed_doc :: "token list \<Rightarrow> string \<Rightarrow> token list" where
  "fixed_doc toks text = toks"

definition between_doc :: "token list" where
  "between_doc =
     [plain_token ''projects'',
      \<lparr>tok_text = ''with'', tok_dep = ''prep'',
       tok_rights = [''budget'', ''between'', ''5'', ''10'']\<rparr>]"

definition two_table_intent :: "string \<Rightarrow> components" where
  "two_table_intent t =
     empty_components\<lparr>sel_tables := [''employees'', t], sel_columns := [''employees.name'']\<rparr>"

section \<open>Facts about the string functions\<close>

lemma starts_with_iff: "starts_with p s \<longleftrightarrow> (\<exists>b. s = p @ b)"
  by (induction p s rule: starts_with.induct) auto

lemma starts_with_append: "starts_with p (p @ b)"
  by (simp add: starts_with_iff)

lemma str_in_iff: "str_in p s \<longleftrightarrow> (\<exists>a b. s = a @ p @ b)"
proof (induction s)
  case Nil
  then show ?case by auto
next
  case (Cons c cs)
  show ?case
  proof
    assume "str_in p (c # cs)"
    then consider "starts_with p (c # cs)" | "str_in p cs" by (auto split: if_splits)
    then show "\<exists>a b. c # cs = a @ p @ b"
    proof cases
      case 1
      then obtain b where "c # cs = p @ b" by (auto simp: starts_with_iff)
      then have "c # cs = [] @ p @ b" by simp
      then show ?thesis by blast
    next
      case 2
      then obtain a b where "cs = a @ p @ b" using Cons.IH by auto
      then have "c # cs = (c # a) @ p @ b" by simp
      then show ?thesis by blast
    qed
  next
    assume "\<exists>a b. c # cs = a @ p @ b"
    then obtain a b where ab: "c # cs = a @ p @ b" by auto
    show "str_in p (c # cs)"
    proof (cases a)
      case Nil
      with ab have "starts_with p (c # cs)" by (simp add: starts_with_iff)
      then show ?thesis by simp
    next
      case (Cons x a')
      with ab have "cs = a' @ p @ b" by simp
      then have "str_in p cs" using Cons.IH by auto
      then show ?thesis by simp
    qed
  qed
qed

lemma str_find_None: "str_find p s = None \<longleftrightarrow> \<not> str_in p s"
  by (induction s) auto

lemma str_split_absent: "\<not> str_in sep s \<Longrightarrow> str_split sep s = [s]"
  using str_find_None [of sep s] by (simp add: str_split.simps)

lemma str_split_present:
  assumes "sep \<noteq> []" and "str_in sep s"
  shows "\<exists>x y ys. str_split sep s = x # y # ys"
proof -
  from assms(2) obtain i where i: "str_find sep s = Some i"
    using str_find_None [of sep s] by (cases "str_find sep s") auto
  have "str_split sep (drop (i + length sep) s) \<noteq> []"
    by (subst str_split.simps) (auto split: option.splits)
  then obtain y ys where "str_split sep (drop (i + length sep) s) = y # ys"
    by (cases "str_split sep (drop (i + length sep) s)") auto
  with assms(1) i have "str_split sep s = take i s # y # ys"
    by (subst str_split.simps) simp
  then show ?thesis by blast
qed

lemma lower_char_idem: "lower_char (lower_char c) = lower_char c"
proof (cases "65 \<le> (of_char c :: nat) \<and> (of_char c :: nat) \<le> 90")
  case True
  then have "(of_char (char_of (of_char c + 32 :: nat)) :: nat) = of_char c + 32"
    by simp
  with True show ?thesis by (simp add: lower_char_def Let_def)
next
  case False
  then show ?thesis by (auto simp: lower_char_def Let_def)
qed

lemma str_lower_idem: "str_lower (str_lower s) = str_lower s"
  by (simp add: str_lower_def lower_char_idem)

lemma space_not_digit: "is_digit c \<Longrightarrow> \<not> is_space c"
  by (auto simp: is_digit_def is_space_def Let_def)

lemma space_not_word: "is_word c \<Longrightarrow> \<not> is_space c"
  by (auto simp: is_word_def is_space_def Let_def)

text \<open>\<open>strip\<close> leaves alone what lies between two characters that are not blank.\<close>

lemma str_strip_keeps:
  assumes "a \<noteq> []" and "\<not> is_space (hd a)" and "\<not> is_space (last a)"
  shows "\<exists>b'. str_strip (a @ b) = a @ b'"
proof -
  from assms(1,2) have front: "dropWhile is_space (a @ b) = a @ b"
    by (cases a) auto
  from assms(1,3) have keep: "dropWhile is_space (rev a) = rev a"
    by (cases a rule: rev_cases) auto
  have "dropWhile is_space (rev b @ rev a) =
          (if \<forall>x\<in>set (rev b). is_space x then rev a else dropWhile is_space (rev b) @ rev a)"
    using keep by (simp add: dropWhile_append)
  then have "str_strip (a @ b) =
          (if \<forall>x\<in>set (rev b). is_space x then a else a @ rev (dropWhile is_space (rev b)))"
    by (simp add: str_strip_def front)
  then show ?thesis by (cases "\<forall>x\<in>set (rev b). is_space x") auto
qed

lemma str_strip_exact:
  assumes "a \<noteq> []" and "\<not> is_space (hd a)" and "\<not> is_space (last a)"
    and "\<forall>x\<in>set b. is_space x"
  shows "str_strip (a @ b) = a"
proof -
  from assms(1,2) have front: "dropWhile is_space (a @ b) = a @ b"
    by (cases a) auto
  from assms(1,3) have keep: "dropWhile is_space (rev a) = rev a"
    by (cases a rule: rev_cases) auto
  from assms(4) have "dropWhile is_space (rev b @ rev a) = rev a"
    using keep by (simp add: dropWhile_append)
  then show ?thesis by (simp add: str_strip_def front)
qed

lemma valid_order_nil: "valid_order ord \<Longrightarrow> ord [] = []"
proof -
  assume "valid_order ord"
  then have "set (ord []) = set []" unfolding valid_order_def by (metis distinct.simps(1))
  then show ?thesis by simp
qed

lemma valid_order_single: "valid_order ord \<Longrightarrow> ord [x] = [x]"
proof -
  assume v: "valid_order ord"
  then have s: "set (ord [x]) = {x}" and d: "distinct (ord [x])"
    by (auto simp: valid_order_def)
  from s obtain y ys where y: "ord [x] = y # ys" by (cases "ord [x]") auto
  with s d have "y = x" and "set ys \<subseteq> {x}" and "x \<notin> set ys" by auto
  then have "ys = []" by (cases ys) auto
  with y \<open>y = x\<close> show ?thesis by simp
qed

lemma valid_order_id: "valid_order id"
  by (simp add: valid_order_def)

lemma valid_order_rev: "valid_order rev"
  by (simp add: valid_order_def)

section \<open>The fields of the parsed components\<close>

lemma parse_query_tables:
  "sel_tables (parse_query ord nlp text) = fst (match_entities (nlp text))"
  by (simp add: parse_query_def extract_limits_def extract_ordering_def extract_aggregations_def
      extract_conditions_def extract_entities_def Let_def split: option.splits prod.splits)

lemma parse_query_columns:
  "sel_columns (parse_query ord nlp text) =
     (if snd (match_entities (nlp text)) = [] then all_columns (ord (fst (match_entities (nlp text))))
      else snd (match_entities (nlp text)))"
  by (simp add: parse_query_def extract_limits_def extract_ordering_def extract_aggregations_def
      extract_conditions_def extract_entities_def Let_def split: option.splits prod.splits)

lemma parse_query_where:
  "where_conds (parse_query ord nlp text) = condition_list (nlp text)"
  by (simp add: parse_query_def extract_limits_def extract_ordering_def extract_aggregations_def
      extract_conditions_def extract_entities_def empty_components_def Let_def
      split: option.splits prod.splits)

lemma parse_query_aggregates:
  "aggregates (parse_query ord nlp text) = aggregate_list (str_lower text)"
  by (simp add: parse_query_def extract_limits_def extract_ordering_def extract_aggregations_def
      extract_conditions_def extract_entities_def empty_components_def Let_def
      split: option.splits prod.splits)

lemma parse_query_group_by:
  "group_by (parse_query ord nlp text) = group_list (str_lower text)"
  by (simp add: parse_query_def extract_limits_def extract_ordering_def extract_aggregations_def
      extract_conditions_def extract_entities_def empty_components_def Let_def
      split: option.splits prod.splits)

lemma parse_query_having: "having (parse_query ord nlp text) = []"
  by (simp add: parse_query_def extract_limits_def extract_ordering_def extract_aggregations_def
      extract_conditions_def extract_entities_def empty_components_def Let_def
      split: option.splits prod.splits)

lemma parse_query_order_by:
  "order_by (parse_query ord nlp text) = order_list (str_lower text)"
  by (simp add: parse_query_def extract_limits_def extract_ordering_def extract_aggregations_def
      extract_conditions_def extract_entities_def empty_components_def Let_def
      split: option.splits prod.splits)

lemma parse_query_limit:
  "limit (parse_query ord nlp text) =
     map_option int_of_digits (re_search limit_match_at (str_lower text))"
  by (simp add: parse_query_def extract_limits_def extract_ordering_def extract_aggregations_def
      extract_conditions_def extract_entities_def empty_components_def Let_def
      split: option.splits prod.splits)

section \<open>Errors of the builder\<close>

lemma render_condition_between:
  assumes "cond_operator c = ''between''" and "\<not> str_in ''and'' (cond_value c)"
  shows "render_condition c = Inl IndexError"
  using assms by (simp add: render_condition_def str_split_absent)

lemma render_conditions_between:
  assumes "c \<in> set cs" and "cond_operator c = ''between''" and "\<not> str_in ''and'' (cond_value c)"
  shows "\<exists>e. render_conditions cs = Inl e"
  using assms
proof (induction cs)
  case Nil
  then show ?case by simp
next
  case (Cons x xs)
  show ?case
  proof (cases "render_condition x")
    case (Inl e)
    then show ?thesis by simp
  next
    case (Inr r)
    with Cons.prems render_condition_between [of c] have "c \<noteq> x" by auto
    with Cons.prems have "c \<in> set xs" by simp
    with Cons.IH Cons.prems obtain e where "render_conditions xs = Inl e" by blast
    with Inr show ?thesis by simp
  qed
qed

lemma build_error_of_where:
  assumes "where_clause (where_conds comps) = Inl e"
  shows "\<exists>e'. build_sql_query ord comps = Inl e'"
  using assms by (simp add: build_sql_query_def split: list.splits sum.splits)

lemma convert_error:
  "build_sql_query ord (parse_query ord nlp (str_lower text)) = Inl e \<Longrightarrow>
   convert_to_sql ord nlp text =
     Inl (ValueError (''Failed to convert text to SQL: '' @ str_of_error e))"
  by (simp add: convert_to_sql_def)

text \<open>
  Claim C10. An intent that holds a condition with operator \<open>between\<close> whose value does
  not contain \<open>and\<close> cannot be built: \<open>values[1]\<close> raises \<open>IndexError\<close>, whatever else
  the intent holds, and \<open>convert_to_sql\<close> raises \<open>ValueError\<close> instead of returning SQL.
\<close>

theorem between_without_and_raises:
  assumes "c \<in> set (where_conds comps)" and "cond_operator c = ''between''"
    and "\<not> str_in ''and'' (cond_value c)"
  shows "(\<exists>e. build_sql_query ord comps = Inl e) \<and>
         (comps = parse_query ord nlp (str_lower text) \<longrightarrow>
            (\<exists>m. convert_to_sql ord nlp text = Inl (ValueError m)))"
proof -
  from render_conditions_between [OF assms] obtain e where
    "render_conditions (where_conds comps) = Inl e" by blast
  then have "where_clause (where_conds comps) = Inl e" by (simp add: where_clause_def)
  then obtain e' where e': "build_sql_query ord comps = Inl e'"
    using build_error_of_where by blast
  then show ?thesis using convert_error [of ord nlp "text" "e'"] by auto
qed

lemma between_doc_conditions:
  "condition_list between_doc =
     [\<lparr>cond_column = ''budget'', cond_operator = ''between'', cond_value = ''5 10''\<rparr>]"
  by (simp add: between_doc_def plain_token_def is_trigger_def parse_condition_phrase_def
      condition_pattern_pairs_def condition_patterns_def str_split.simps str_strip_def is_space_def)

theorem between_without_and_raises_witness:
  "\<lparr>cond_column = ''budget'', cond_operator = ''between'', cond_value = ''5 10''\<rparr>
     \<in> set (where_conds (parse_query id (fixed_doc between_doc)
                           (str_lower ''projects with budget between 5 10''))) \<and>
   \<not> str_in ''and'' ''5 10'' \<and>
   (\<exists>m. convert_to_sql id (fixed_doc between_doc) ''projects with budget between 5 10'' =
          Inl (ValueError m))"
proof -
  let ?c = "\<lparr>cond_column = ''budget'', cond_operator = ''between'', cond_value = ''5 10''\<rparr>"
  let ?comps = "parse_query id (fixed_doc between_doc) (str_lower ''projects with budget between 5 10'')"
  have m: "?c \<in> set (where_conds ?comps)"
    by (simp add: parse_query_where fixed_doc_def between_doc_conditions)
  have n: "\<not> str_in ''and'' (cond_value ?c)" by simp
  have o: "cond_operator ?c = ''between''" by simp
  from between_without_and_raises [OF m o n, of id "fixed_doc between_doc" "''projects with budget between 5 10''"]
  show ?thesis using m n by simp
qed

lemma join_clauses_single:
  "declared_edge a t = Some (k0, k1) \<Longrightarrow>
   join_clauses a [t] =
     Inr (''JOIN '' @ t @ '' ON '' @ a @ ''.'' @ k0 @ '' = '' @ t @ ''.'' @ k1 @ NL)"
  by (auto simp: declared_edge_def Option.bind_eq_Some_conv)

lemma join_clauses_undeclared:
  "t \<in> set ts \<Longrightarrow> declared_edge a t = None \<Longrightarrow> \<exists>k. join_clauses a ts = Inl (KeyError k)"
proof (induction ts)
  case Nil
  then show ?case by simp
next
  case (Cons x xs)
  show ?case
  proof (cases "map_of table_relationships a")
    case None
    then show ?thesis by simp
  next
    case (Some edges)
    show ?thesis
    proof (cases "map_of edges x")
      case None
      with Some show ?thesis by simp
    next
      case (Some ks)
      with Cons.prems \<open>map_of table_relationships a = Some edges\<close> have "t \<noteq> x"
        by (auto simp: declared_edge_def)
      with Cons.prems have "t \<in> set xs" by simp
      with Cons.IH Cons.prems obtain k where "join_clauses a xs = Inl (KeyError k)" by blast
      with Some \<open>map_of table_relationships a = Some edges\<close> show ?thesis
        by (cases ks) simp
    qed
  qed
qed

text \<open>
  Claim C2. When the tables of an intent are iterated as an anchor \<open>a\<close> and one more table
  \<open>t\<close> and \<open>table_relationships[a][t]\<close> is declared with keys \<open>k0\<close>, \<open>k1\<close>, the query has
  the single line \<open>JOIN t ON a.k0 = t.k1\<close> between its FROM line and its WHERE clause.
  When some table to join has no declared edge from the anchor, the builder raises
  \<open>KeyError\<close> and returns no SQL (\<open>convert_to_sql\<close> re-raises every exception as
  \<open>ValueError\<close>).
\<close>

theorem join_for_declared_edge_only:
  "(ord (sel_tables comps) = [a, t] \<and> declared_edge a t = Some (k0, k1) \<and>
      where_clause (where_conds comps) = Inr wh \<longrightarrow>
      build_sql_query ord comps =
        Inr (str_strip
               (select_clause ord comps @ ''FROM '' @ a @ NL @
                ''JOIN '' @ t @ '' ON '' @ a @ ''.'' @ k0 @ '' = '' @ t @ ''.'' @ k1 @ NL @
                wh @ group_clause comps @ having_clause comps @ order_clause comps @
                limit_clause comps))) \<and>
   (ord (sel_tables comps) = a # ts \<and> t \<in> set ts \<and> declared_edge a t = None \<longrightarrow>
      (\<exists>k. build_sql_query ord comps = Inl (KeyError k)))"
proof (intro conjI impI)
  assume h: "ord (sel_tables comps) = [a, t] \<and> declared_edge a t = Some (k0, k1) \<and>
      where_clause (where_conds comps) = Inr wh"
  then have "join_clauses a [t] =
      Inr (''JOIN '' @ t @ '' ON '' @ a @ ''.'' @ k0 @ '' = '' @ t @ ''.'' @ k1 @ NL)"
    using join_clauses_single by blast
  with h show "build_sql_query ord comps =
        Inr (str_strip
               (select_clause ord comps @ ''FROM '' @ a @ NL @
                ''JOIN '' @ t @ '' ON '' @ a @ ''.'' @ k0 @ '' = '' @ t @ ''.'' @ k1 @ NL @
                wh @ group_clause comps @ having_clause comps @ order_clause comps @
                limit_clause comps))"
    by (simp add: build_sql_query_def)
next
  assume h: "ord (sel_tables comps) = a # ts \<and> t \<in> set ts \<and> declared_edge a t = None"
  then obtain k where "join_clauses a ts = Inl (KeyError k)"
    using join_clauses_undeclared by blast
  with h show "\<exists>k. build_sql_query ord comps = Inl (KeyError k)"
    by (simp add: build_sql_query_def)
qed

lemma edge_employees_departments:
  "declared_edge ''employees'' ''departments'' = Some (''department'', ''name'')"
  by (simp add: declared_edge_def table_relationships_def)

lemma edge_employees_customers: "declared_edge ''employees'' ''customers'' = None"
  by (simp add: declared_edge_def table_relationships_def)

lemma two_table_clauses:
  "where_clause (where_conds (two_table_intent t)) = Inr []"
  "select_clause id (two_table_intent t) = ''SELECT employees.name'' @ NL"
  "group_clause (two_table_intent t) = []"
  "having_clause (two_table_intent t) = []"
  "order_clause (two_table_intent t) = []"
  "limit_clause (two_table_intent t) = []"
  by (simp_all add: two_table_intent_def empty_components_def where_clause_def select_clause_def
      group_clause_def having_clause_def order_clause_def limit_clause_def)

lemma strip_two_table:
  "str_strip (''SELECT employees.name'' @ NL @ ''FROM employees'' @ NL @
      ''JOIN departments ON employees.department = departments.name'' @ NL) =
   ''SELECT employees.name'' @ NL @ ''FROM employees'' @ NL @
      ''JOIN departments ON employees.department = departments.name''"
  by (simp add: str_strip_def is_space_def)

theorem join_for_declared_edge_only_witness:
  "id (sel_tables (two_table_intent ''departments'')) = [''employees'', ''departments''] \<and>
   declared_edge ''employees'' ''departments'' = Some (''department'', ''name'') \<and>
   build_sql_query id (two_table_intent ''departments'') =
     Inr (''SELECT employees.name'' @ NL @ ''FROM employees'' @ NL @
          ''JOIN departments ON employees.department = departments.name'') \<and>
   id (sel_tables (two_table_intent ''customers'')) = [''employees'', ''customers''] \<and>
   declared_edge ''employees'' ''customers'' = None \<and>
   (\<exists>k. build_sql_query id (two_table_intent ''customers'') = Inl (KeyError k))"
proof -
  have t1: "id (sel_tables (two_table_intent ''departments'')) = [''employees'', ''departments'']"
    and t2: "id (sel_tables (two_table_intent ''customers'')) = ''employees'' # [''customers'']"
    by (simp_all add: two_table_intent_def)
  from join_for_declared_edge_only [of id "two_table_intent ''departments''" "''employees''"
      "''departments''" "''department''" "''name''" "[]"]
    t1 edge_employees_departments
  have a: "build_sql_query id (two_table_intent ''departments'') =
     Inr (''SELECT employees.name'' @ NL @ ''FROM employees'' @ NL @
          ''JOIN departments ON employees.department = departments.name'')"
    using strip_two_table by (simp add: two_table_clauses)
  from join_for_declared_edge_only [of id "two_table_intent ''customers''" "''employees''"
      "''customers''" _ _ _ "[''customers'']"]
    t2 edge_employees_customers
  have b: "\<exists>k. build_sql_query id (two_table_intent ''customers'') = Inl (KeyError k)"
    by simp
  from a b t1 t2 edge_employees_departments edge_employees_customers show ?thesis by simp
qed

section \<open>Passes that find nothing\<close>

lemma condition_list_empty:
  "(\<forall>tok\<in>set doc. \<not> is_trigger tok \<or> parse_condition_phrase tok = None) \<Longrightarrow>
   condition_list doc = []"
  by (induction doc) auto

lemma aggregate_list_empty:
  "(\<forall>p\<in>set (map snd aggregate_pattern_pairs). \<not> str_in p text) \<Longrightarrow> aggregate_list text = []"
  by (auto simp: aggregate_list_def)

lemma order_list_empty: "re_search order_match_at text = None \<Longrightarrow> order_list text = []"
  by (simp add: order_list_def)

lemma build_without_tables:
  "ord (sel_tables comps) = [] \<Longrightarrow> build_sql_query ord comps = Inl IndexError"
  by (simp add: build_sql_query_def)

text \<open>
  Claim C9. The extraction passes are total functions of the text and the tokens: none of
  them has a raising branch. When the condition pass finds no trigger token with a
  parsable phrase, the aggregate pass no aggregate keyword, the ordering pass and the limit
  pass no match of their pattern, the field of the intent stays empty. When no table was
  identified, \<open>tables[0]\<close> raises \<open>IndexError\<close> and \<open>convert_to_sql\<close> raises a
  \<open>ValueError\<close> with the message \<open>Failed to convert text to SQL: list index out of range\<close>.
\<close>

theorem passes_tolerate_no_match:
  "((\<forall>tok\<in>set (nlp (str_lower text)). \<not> is_trigger tok \<or> parse_condition_phrase tok = None) \<longrightarrow>
      where_conds (parse_query ord nlp (str_lower text)) = []) \<and>
   ((\<forall>p\<in>set (map snd aggregate_pattern_pairs). \<not> str_in p (str_lower text)) \<longrightarrow>
      aggregates (parse_query ord nlp (str_lower text)) = []) \<and>
   (re_search order_match_at (str_lower text) = None \<longrightarrow>
      order_by (parse_query ord nlp (str_lower text)) = []) \<and>
   (re_search limit_match_at (str_lower text) = None \<longrightarrow>
      limit (parse_query ord nlp (str_lower text)) = None) \<and>
   (valid_order ord \<and> sel_tables (parse_query ord nlp (str_lower text)) = [] \<longrightarrow>
      convert_to_sql ord nlp text =
        Inl (ValueError ''Failed to convert text to SQL: list index out of range''))"
proof (intro conjI impI)
  assume "\<forall>tok\<in>set (nlp (str_lower text)). \<not> is_trigger tok \<or> parse_condition_phrase tok = None"
  then show "where_conds (parse_query ord nlp (str_lower text)) = []"
    by (simp only: parse_query_where condition_list_empty)
next
  assume "\<forall>p\<in>set (map snd aggregate_pattern_pairs). \<not> str_in p (str_lower text)"
  then show "aggregates (parse_query ord nlp (str_lower text)) = []"
    by (simp only: parse_query_aggregates str_lower_idem aggregate_list_empty)
next
  assume "re_search order_match_at (str_lower text) = None"
  then show "order_by (parse_query ord nlp (str_lower text)) = []"
    by (simp only: parse_query_order_by str_lower_idem order_list_empty)
next
  assume "re_search limit_match_at (str_lower text) = None"
  then show "limit (parse_query ord nlp (str_lower text)) = None"
    by (simp add: parse_query_limit str_lower_idem)
next
  assume h: "valid_order ord \<and> sel_tables (parse_query ord nlp (str_lower text)) = []"
  then have "ord (sel_tables (parse_query ord nlp (str_lower text))) = []"
    by (simp add: valid_order_nil)
  then have "build_sql_query ord (parse_query ord nlp (str_lower text)) = Inl IndexError"
    by (rule build_without_tables)
  then show "convert_to_sql ord nlp text =
        Inl (ValueError ''Failed to convert text to SQL: list index out of range'')"
    by (simp add: convert_to_sql_def)
qed

lemma xyz_lower: "str_lower ''xyz'' = ''xyz''"
  by (simp add: str_lower_def lower_char_def)

lemma xyz_tokens: "word_tokens ''xyz'' = [plain_token ''xyz'']"
  by (simp add: word_tokens_def str_split.simps)

lemma xyz_entities: "match_entities [plain_token ''xyz''] = ([], [])"
  by (simp add: match_entities_def entity_step_def match_tables_def match_columns_def
      table_match_def column_match_def plain_token_def table_columns_def table_column_pairs_def
      str_lower_def lower_char_def)

lemma xyz_aggregates: "\<forall>p\<in>set (map snd aggregate_pattern_pairs). \<not> str_in p ''xyz''"
  by (simp add: aggregate_pattern_pairs_def aggregate_patterns_def)

lemma xyz_order: "re_search order_match_at ''xyz'' = None"
  by (simp add: order_match_at_def after_prefix_def)

lemma xyz_limit: "re_search limit_match_at ''xyz'' = None"
  by (simp add: limit_match_at_def after_prefix_def)

theorem passes_tolerate_no_match_witness:
  "filter is_trigger (word_tokens (str_lower ''xyz'')) = [] \<and>
   filter (\<lambda>p. str_in p (str_lower ''xyz'')) (map snd aggregate_pattern_pairs) = [] \<and>
   re_search order_match_at (str_lower ''xyz'') = None \<and>
   re_search limit_match_at (str_lower ''xyz'') = None \<and>
   valid_order id \<and>
   sel_tables (parse_query id word_tokens (str_lower ''xyz'')) = [] \<and>
   where_conds (parse_query id word_tokens (str_lower ''xyz'')) = [] \<and>
   aggregates (parse_query id word_tokens (str_lower ''xyz'')) = [] \<and>
   order_by (parse_query id word_tokens (str_lower ''xyz'')) = [] \<and>
   limit (parse_query id word_tokens (str_lower ''xyz'')) = None \<and>
   convert_to_sql id word_tokens ''xyz'' =
     Inl (ValueError ''Failed to convert text to SQL: list index out of range'')"
proof -
  have c: "\<forall>tok\<in>set (word_tokens (str_lower ''xyz'')). \<not> is_trigger tok \<or> parse_condition_phrase tok = None"
    by (simp add: xyz_lower xyz_tokens is_trigger_def plain_token_def)
  have a: "\<forall>p\<in>set (map snd aggregate_pattern_pairs). \<not> str_in p (str_lower ''xyz'')"
    using xyz_aggregates by (simp only: xyz_lower)
  have o: "re_search order_match_at (str_lower ''xyz'') = None"
    using xyz_order by (simp only: xyz_lower)
  have l: "re_search limit_match_at (str_lower ''xyz'') = None"
    using xyz_limit by (simp only: xyz_lower)
  have t: "sel_tables (parse_query id word_tokens (str_lower ''xyz'')) = []"
    by (simp add: parse_query_tables xyz_lower xyz_tokens xyz_entities)
  have c': "filter is_trigger (word_tokens (str_lower ''xyz'')) = []"
    by (simp add: xyz_lower xyz_tokens is_trigger_def plain_token_def)
  have a': "filter (\<lambda>p. str_in p (str_lower ''xyz'')) (map snd aggregate_pattern_pairs) = []"
    using a by (simp only: filter_empty_conv not_False_eq_True simp_thms)
  from passes_tolerate_no_match [of word_tokens "''xyz''" id] c a o l t valid_order_id
  have "where_conds (parse_query id word_tokens (str_lower ''xyz'')) = [] \<and>
   aggregates (parse_query id word_tokens (str_lower ''xyz'')) = [] \<and>
   order_by (parse_query id word_tokens (str_lower ''xyz'')) = [] \<and>
   limit (parse_query id word_tokens (str_lower ''xyz'')) = None \<and>
   convert_to_sql id word_tokens ''xyz'' =
     Inl (ValueError ''Failed to convert text to SQL: list index out of range'')"
    by simp
  with c' a' o l t valid_order_id show ?thesis by simp
qed

section \<open>What entity extraction collects\<close>

lemma set_set_add: "set (set_add x xs) = insert x (set xs)"
  by (auto simp: set_add_def)

lemma distinct_set_add: "distinct xs \<Longrightarrow> distinct (set_add x xs)"
  by (auto simp: set_add_def)

lemma set_match_tables:
  "set (match_tables tok tabs) =
     set tabs \<union> {t \<in> fst ` set table_columns. table_match tok t}"
proof -
  have "set (foldl (\<lambda>T t. if table_match tok t then set_add t T else T) tabs ts) =
          set tabs \<union> {t \<in> set ts. table_match tok t}" for ts
    by (induction ts arbitrary: tabs) (auto simp: set_set_add)
  then show ?thesis by (simp add: match_tables_def)
qed

lemma set_match_columns:
  "set (fst (match_columns tok (tabs, cols))) =
     set tabs \<union> {t. \<exists>c. (t, c) \<in> set table_column_pairs \<and> column_match tok c}"
  "set (snd (match_columns tok (tabs, cols))) =
     set cols \<union> {qualify t c | t c. (t, c) \<in> set table_column_pairs \<and> column_match tok c}"
proof -
  let ?f = "\<lambda>(T, C) (t, c).
              if column_match tok c then (set_add t T, set_add (qualify t c) C) else (T, C)"
  have "set (fst (foldl ?f (tabs, cols) ps)) =
          set tabs \<union> {t. \<exists>c. (t, c) \<in> set ps \<and> column_match tok c} \<and>
        set (snd (foldl ?f (tabs, cols) ps)) =
          set cols \<union> {qualify t c | t c. (t, c) \<in> set ps \<and> column_match tok c}" for ps
  proof (induction ps arbitrary: tabs cols)
    case Nil
    then show ?case by simp
  next
    case (Cons p ps)
    obtain t c where p: "p = (t, c)" by (cases p)
    show ?case
    proof (cases "column_match tok c")
      case True
      then have "foldl ?f (tabs, cols) (p # ps) =
                   foldl ?f (set_add t tabs, set_add (qualify t c) cols) ps"
        by (simp add: p)
      then show ?thesis
        using Cons.IH [of "set_add t tabs" "set_add (qualify t c) cols"] True
        by (auto simp: p set_set_add)
    next
      case False
      then have "foldl ?f (tabs, cols) (p # ps) = foldl ?f (tabs, cols) ps"
        by (simp add: p)
      then show ?thesis using Cons.IH [of tabs cols] False by (auto simp: p)
    qed
  qed
  then show
    "set (fst (match_columns tok (tabs, cols))) =
       set tabs \<union> {t. \<exists>c. (t, c) \<in> set table_column_pairs \<and> column_match tok c}"
    "set (snd (match_columns tok (tabs, cols))) =
       set cols \<union> {qualify t c | t c. (t, c) \<in> set table_column_pairs \<and> column_match tok c}"
    by (simp_all add: match_columns_def)
qed

lemma set_entity_step:
  "set (fst (entity_step tc tok)) =
     set (fst tc) \<union> {t \<in> fst ` set table_columns. table_match tok t} \<union>
     {t. \<exists>c. (t, c) \<in> set table_column_pairs \<and> column_match tok c}"
  "set (snd (entity_step tc tok)) =
     set (snd tc) \<union> {qualify t c | t c. (t, c) \<in> set table_column_pairs \<and> column_match tok c}"
  by (simp_all add: entity_step_def set_match_columns set_match_tables)

lemma set_match_entities:
  "set (fst (match_entities doc)) =
     {t \<in> fst ` set table_columns. \<exists>tok\<in>set doc. table_match tok t} \<union>
     {t. \<exists>c. (t, c) \<in> set table_column_pairs \<and> (\<exists>tok\<in>set doc. column_match tok c)}"
  "set (snd (match_entities doc)) =
     {qualify t c | t c. (t, c) \<in> set table_column_pairs \<and> (\<exists>tok\<in>set doc. column_match tok c)}"
proof -
  have "set (fst (foldl entity_step tc doc)) =
          set (fst tc) \<union> {t \<in> fst ` set table_columns. \<exists>tok\<in>set doc. table_match tok t} \<union>
          {t. \<exists>c. (t, c) \<in> set table_column_pairs \<and> (\<exists>tok\<in>set doc. column_match tok c)} \<and>
        set (snd (foldl entity_step tc doc)) =
          set (snd tc) \<union>
          {qualify t c | t c. (t, c) \<in> set table_column_pairs \<and> (\<exists>tok\<in>set doc. column_match tok c)}"
    for tc
  proof (induction doc arbitrary: tc)
    case Nil
    then show ?case by simp
  next
    case (Cons tok doc)
    from Cons.IH [of "entity_step tc tok"]
    have a: "set (fst (foldl entity_step (entity_step tc tok) doc)) =
          set (fst (entity_step tc tok)) \<union>
          {t \<in> fst ` set table_columns. \<exists>tok\<in>set doc. table_match tok t} \<union>
          {t. \<exists>c. (t, c) \<in> set table_column_pairs \<and> (\<exists>tok\<in>set doc. column_match tok c)}"
      and b: "set (snd (foldl entity_step (entity_step tc tok) doc)) =
          set (snd (entity_step tc tok)) \<union>
          {qualify t c | t c. (t, c) \<in> set table_column_pairs \<and> (\<exists>tok\<in>set doc. column_match tok c)}"
      by blast+
    have "set (fst (foldl entity_step tc (tok # doc))) =
          set (fst tc) \<union> {t \<in> fst ` set table_columns. \<exists>tok\<in>set (tok # doc). table_match tok t} \<union>
          {t. \<exists>c. (t, c) \<in> set table_column_pairs \<and> (\<exists>tok\<in>set (tok # doc). column_match tok c)}"
      unfolding foldl_Cons a set_entity_step by auto
    moreover have "set (snd (foldl entity_step tc (tok # doc))) =
          set (snd tc) \<union>
          {qualify t c | t c. (t, c) \<in> set table_column_pairs \<and> (\<exists>tok\<in>set (tok # doc). column_match tok c)}"
      unfolding foldl_Cons b set_entity_step by auto
    ultimately show ?case by blast
  qed
  from this [of "([], [])"] show
    "set (fst (match_entities doc)) =
       {t \<in> fst ` set table_columns. \<exists>tok\<in>set doc. table_match tok t} \<union>
       {t. \<exists>c. (t, c) \<in> set table_column_pairs \<and> (\<exists>tok\<in>set doc. column_match tok c)}"
    "set (snd (match_entities doc)) =
       {qualify t c | t c. (t, c) \<in> set table_column_pairs \<and> (\<exists>tok\<in>set doc. column_match tok c)}"
    by (simp_all add: match_entities_def)
qed

lemma extract_entities_fields:
  "sel_tables (extract_entities ord doc comps) = fst (match_entities doc)"
  "sel_columns (extract_entities ord doc comps) =
     (if snd (match_entities doc) = [] then all_columns (ord (fst (match_entities doc)))
      else snd (match_entities doc))"
  by (simp_all add: extract_entities_def split: prod.splits)

text \<open>
  Claim C6, as the code has it. Every table whose lower-cased name contains the lower-cased
  token text, or is contained in it, goes into the tables set. A column is matched in one
  direction only: when its lower-cased name occurs in the lower-cased token text; then the
  qualified column goes into the columns set and its table into the tables set. Nothing
  else is added by the loop over the tokens.
\<close>

theorem entity_matching:
  "set (fst (match_entities doc)) =
     {t \<in> fst ` set table_columns.
        \<exists>tok\<in>set doc. str_in (str_lower t) (str_lower (tok_text tok)) \<or>
                       str_in (str_lower (tok_text tok)) (str_lower t)} \<union>
     {t. \<exists>c. (t, c) \<in> set table_column_pairs \<and>
              (\<exists>tok\<in>set doc. str_in (str_lower c) (str_lower (tok_text tok)))} \<and>
   set (snd (match_entities doc)) =
     {qualify t c | t c. (t, c) \<in> set table_column_pairs \<and>
                         (\<exists>tok\<in>set doc. str_in (str_lower c) (str_lower (tok_text tok)))} \<and>
   sel_tables (extract_entities ord doc comps) = fst (match_entities doc) \<and>
   (snd (match_entities doc) \<noteq> [] \<longrightarrow>
      sel_columns (extract_entities ord doc comps) = snd (match_entities doc))"
proof -
  have a: "set (fst (match_entities doc)) =
     {t \<in> fst ` set table_columns.
        \<exists>tok\<in>set doc. str_in (str_lower t) (str_lower (tok_text tok)) \<or>
                       str_in (str_lower (tok_text tok)) (str_lower t)} \<union>
     {t. \<exists>c. (t, c) \<in> set table_column_pairs \<and>
              (\<exists>tok\<in>set doc. str_in (str_lower c) (str_lower (tok_text tok)))}"
    unfolding set_match_entities table_match_def column_match_def ..
  have b: "set (snd (match_entities doc)) =
     {qualify t c | t c. (t, c) \<in> set table_column_pairs \<and>
                         (\<exists>tok\<in>set doc. str_in (str_lower c) (str_lower (tok_text tok)))}"
    unfolding set_match_entities column_match_def ..
  have c: "sel_tables (extract_entities ord doc comps) = fst (match_entities doc)"
    by (rule extract_entities_fields)
  have d: "snd (match_entities doc) \<noteq> [] \<longrightarrow>
      sel_columns (extract_entities ord doc comps) = snd (match_entities doc)"
    by (simp add: extract_entities_fields)
  from a b c d show ?thesis by (intro conjI)
qed

theorem entity_matching_witness:
  "(''employees'', ''salary'') \<in> set table_column_pairs \<and>
   str_in (str_lower ''salary'') (str_lower (tok_text (plain_token ''salary''))) \<and>
   ''employees.salary'' \<in> set (sel_columns (extract_entities id [plain_token ''salary''] empty_components)) \<and>
   ''employees'' \<in> set (sel_tables (extract_entities id [plain_token ''salary''] empty_components))"
proof -
  let ?doc = "[plain_token ''salary'']"
  have p: "(''employees'', ''salary'') \<in> set table_column_pairs"
    by (simp add: table_column_pairs_def table_columns_def)
  have m: "str_in (str_lower ''salary'') (str_lower (tok_text (plain_token ''salary'')))"
    by (simp add: plain_token_def str_lower_def lower_char_def)
  have q: "qualify ''employees'' ''salary'' = ''employees.salary''"
    by (simp add: qualify_def)
  note e = entity_matching [of ?doc id empty_components]
  from e have "set (snd (match_entities ?doc)) =
     {qualify t c | t c. (t, c) \<in> set table_column_pairs \<and>
                         (\<exists>tok\<in>set ?doc. str_in (str_lower c) (str_lower (tok_text tok)))}"
    by blast
  moreover from p m q have "''employees.salary'' \<in>
     {qualify t c | t c. (t, c) \<in> set table_column_pairs \<and>
                         (\<exists>tok\<in>set ?doc. str_in (str_lower c) (str_lower (tok_text tok)))}"
    by (intro CollectI exI [of _ "''employees''"] exI [of _ "''salary''"]) simp
  ultimately have c: "''employees.salary'' \<in> set (snd (match_entities ?doc))"
    by (rule ssubst)
  then have ne: "snd (match_entities ?doc) \<noteq> []" by auto
  from e have "set (fst (match_entities ?doc)) \<supseteq>
     {t. \<exists>c. (t, c) \<in> set table_column_pairs \<and>
              (\<exists>tok\<in>set ?doc. str_in (str_lower c) (str_lower (tok_text tok)))}"
    by blast
  moreover from p m have "''employees'' \<in>
     {t. \<exists>c. (t, c) \<in> set table_column_pairs \<and>
              (\<exists>tok\<in>set ?doc. str_in (str_lower c) (str_lower (tok_text tok)))}"
    by (intro CollectI exI [of _ "''salary''"]) simp
  ultimately have t: "''employees'' \<in> set (fst (match_entities ?doc))"
    by (rule subsetD)
  from e ne c t p m show ?thesis by simp
qed

text \<open>The token \<open>sal\<close> is part of the column name \<open>salary\<close>, and matches nothing.\<close>

lemma sal_entities: "match_entities [plain_token ''sal''] = ([], [])"
  by (simp add: match_entities_def entity_step_def match_tables_def match_columns_def
      table_match_def column_match_def plain_token_def table_columns_def table_column_pairs_def
      str_lower_def lower_char_def)

theorem column_match_one_direction:
  "str_in (str_lower ''sal'') (str_lower ''salary'') \<and>
   ''employees.salary'' \<notin> set (sel_columns (extract_entities id [plain_token ''sal''] empty_components)) \<and>
   ''employees'' \<notin> set (sel_tables (extract_entities id [plain_token ''sal''] empty_components))"
  by (simp add: extract_entities_fields sal_entities all_columns_def str_lower_def lower_char_def)

section \<open>The select-all fallback\<close>

lemma pair_table_in_schema:
  "(t, c) \<in> set table_column_pairs \<Longrightarrow> t \<in> fst ` set table_columns"
  by (force simp: table_column_pairs_def)

lemma matched_tables_in_schema: "set (fst (match_entities doc)) \<subseteq> fst ` set table_columns"
  unfolding set_match_entities using pair_table_in_schema by blast

lemma schema_tables:
  "t \<in> fst ` set table_columns \<longleftrightarrow> t = ''employees'' \<or> t = ''departments'' \<or> t = ''projects''"
  by (auto simp: table_columns_def)

lemma all_columns_single:
  assumes "t \<in> fst ` set table_columns"
  shows "all_columns [t] = map (qualify t) (columns_of t)"
proof -
  have "all_columns [''employees''] = map (qualify ''employees'') (columns_of ''employees'')"
    by (simp add: all_columns_def columns_of_def table_columns_def qualify_def set_add_def)
  moreover
  have "all_columns [''departments''] = map (qualify ''departments'') (columns_of ''departments'')"
    by (simp add: all_columns_def columns_of_def table_columns_def qualify_def set_add_def)
  moreover
  have "all_columns [''projects''] = map (qualify ''projects'') (columns_of ''projects'')"
    by (simp add: all_columns_def columns_of_def table_columns_def qualify_def set_add_def)
  ultimately show ?thesis using assms by (auto simp: schema_tables)
qed

lemma schema_table_ends:
  assumes "t \<in> fst ` set table_columns"
  shows "t \<noteq> [] \<and> \<not> is_space (last t)"
  using assms by (auto simp: schema_tables is_space_def)

lemma convert_built:
  assumes "ord (fst (match_entities (nlp (str_lower text)))) = a # ts"
    and "join_clauses a ts = Inr joins"
    and "where_clause (condition_list (nlp (str_lower text))) = Inr wh"
  shows "convert_to_sql ord nlp text =
     Inr (str_strip
            (select_clause ord (parse_query ord nlp (str_lower text)) @ ''FROM '' @ a @ NL @
             joins @ wh @
             group_clause (parse_query ord nlp (str_lower text)) @
             having_clause (parse_query ord nlp (str_lower text)) @
             order_clause (parse_query ord nlp (str_lower text)) @
             limit_clause (parse_query ord nlp (str_lower text))))"
  using assms
  by (simp add: convert_to_sql_def build_sql_query_def parse_query_tables parse_query_where)

lemma parsed_clauses:
  "select_clause ord (parse_query ord nlp (str_lower text)) =
     ''SELECT '' @
     str_join '', ''
       (if aggregate_list (str_lower text) \<noteq> []
        then map select_item (aggregate_list (str_lower text))
        else ord (sel_columns (parse_query ord nlp (str_lower text)))) @ NL"
  "group_clause (parse_query ord nlp (str_lower text)) =
     (if group_list (str_lower text) = [] then []
      else ''GROUP BY '' @ str_join '', '' (group_list (str_lower text)) @ NL)"
  "having_clause (parse_query ord nlp (str_lower text)) = []"
  "order_clause (parse_query ord nlp (str_lower text)) =
     (if order_list (str_lower text) = [] then []
      else ''ORDER BY '' @
           str_join '', '' (map (\<lambda>item. ord_column item @ '' '' @ ord_direction item)
                              (order_list (str_lower text))) @ NL)"
  "limit_clause (parse_query ord nlp (str_lower text)) =
     (case re_search limit_match_at (str_lower text) of
        None \<Rightarrow> []
      | Some ds \<Rightarrow> if int_of_digits ds = 0 then [] else ''LIMIT '' @ str_of_nat (int_of_digits ds))"
  by (simp_all add: select_clause_def group_clause_def having_clause_def order_clause_def
      limit_clause_def parse_query_aggregates parse_query_group_by parse_query_having
      parse_query_order_by parse_query_limit str_lower_idem split: option.splits)

text \<open>
  Claim C7, as the code has it. When the tokens match exactly one table and no column, and
  no condition, aggregate, grouping, ordering or limit was extracted, the columns of the
  intent are all the declared columns of that table and the SQL is the SELECT of these
  columns, in the iteration order of the set, FROM that table and nothing else.
\<close>

theorem select_all_fallback:
  assumes "valid_order ord"
    and "match_entities (nlp (str_lower text)) = ([t], [])"
    and "condition_list (nlp (str_lower text)) = []"
    and "aggregate_list (str_lower text) = []"
    and "group_list (str_lower text) = []"
    and "order_list (str_lower text) = []"
    and "re_search limit_match_at (str_lower text) = None"
  shows "sel_columns (parse_query ord nlp (str_lower text)) = map (qualify t) (columns_of t) \<and>
         convert_to_sql ord nlp text =
           Inr (''SELECT '' @ str_join '', '' (ord (map (qualify t) (columns_of t))) @ NL @
                ''FROM '' @ t)"
proof -
  let ?comps = "parse_query ord nlp (str_lower text)"
  let ?sel = "''SELECT '' @ str_join '', '' (ord (map (qualify t) (columns_of t))) @ NL"
  from assms(2) have "t \<in> set (fst (match_entities (nlp (str_lower text))))" by simp
  then have schema: "t \<in> fst ` set table_columns" using matched_tables_in_schema by blast
  have cols: "sel_columns ?comps = map (qualify t) (columns_of t)"
    using assms(1,2) schema
    by (simp add: parse_query_columns valid_order_single all_columns_single)
  have tabs: "ord (fst (match_entities (nlp (str_lower text)))) = t # []"
    using assms(1,2) by (simp add: valid_order_single)
  have wh: "where_clause (condition_list (nlp (str_lower text))) = Inr []"
    using assms(3) by (simp add: where_clause_def)
  have "convert_to_sql ord nlp text = Inr (str_strip ((?sel @ ''FROM '' @ t) @ NL))"
    using convert_built [of ord nlp "text" t "[]" "[]" "[]"] tabs wh assms(4-7) cols
    by (simp add: parsed_clauses)
  moreover have "str_strip ((?sel @ ''FROM '' @ t) @ NL) = ?sel @ ''FROM '' @ t"
    using schema_table_ends [OF schema]
    by (intro str_strip_exact) (simp_all add: is_space_def)
  ultimately show ?thesis using cols by simp
qed

lemmas entity_eval_defs = match_entities_def entity_step_def match_tables_def match_columns_def
  table_match_def column_match_def plain_token_def table_columns_def table_column_pairs_def
  str_lower_def lower_char_def set_add_def qualify_def

lemmas regex_eval_defs = order_list_def order_match_at_def order_tail_def order_modifier_def
  limit_match_at_def by_match_at_def after_prefix_def skip_spaces1_def
  is_space_def is_word_def is_digit_def

lemma projects_lower: "str_lower ''projects'' = ''projects''"
  by (simp add: str_lower_def lower_char_def)

lemma projects_tokens: "word_tokens ''projects'' = [plain_token ''projects'']"
  by (simp add: word_tokens_def str_split.simps)

lemma projects_entities: "match_entities [plain_token ''projects''] = ([''projects''], [])"
  by (simp add: entity_eval_defs)

lemma projects_aggregates: "aggregate_list ''projects'' = []"
  by (simp add: aggregate_list_def aggregate_pattern_pairs_def aggregate_patterns_def)

lemma projects_groups: "group_list ''projects'' = []"
  by (simp add: group_list_def regex_eval_defs)

lemma projects_order: "order_list ''projects'' = []"
  by (simp add: regex_eval_defs)

lemma projects_limit: "re_search limit_match_at ''projects'' = None"
  by (simp add: regex_eval_defs)

theorem select_all_fallback_witness:
  "valid_order id \<and>
   match_entities (word_tokens (str_lower ''projects'')) = ([''projects''], []) \<and>
   condition_list (word_tokens (str_lower ''projects'')) = [] \<and>
   aggregate_list (str_lower ''projects'') = [] \<and>
   group_list (str_lower ''projects'') = [] \<and>
   order_list (str_lower ''projects'') = [] \<and>
   re_search limit_match_at (str_lower ''projects'') = None \<and>
   convert_to_sql id word_tokens ''projects'' =
     Inr (''SELECT projects.project_id, projects.name, projects.department_id, '' @
          ''projects.start_date, projects.end_date, projects.budget, projects.status'' @ NL @
          ''FROM projects'')"
proof -
  have e: "match_entities (word_tokens (str_lower ''projects'')) = ([''projects''], [])"
    by (simp only: projects_lower projects_tokens projects_entities)
  have c: "condition_list (word_tokens (str_lower ''projects'')) = []"
    by (simp add: projects_lower projects_tokens is_trigger_def plain_token_def)
  have a: "aggregate_list (str_lower ''projects'') = []"
    by (simp only: projects_lower projects_aggregates)
  have g: "group_list (str_lower ''projects'') = []"
    by (simp only: projects_lower projects_groups)
  have o: "order_list (str_lower ''projects'') = []"
    by (simp only: projects_lower projects_order)
  have l: "re_search limit_match_at (str_lower ''projects'') = None"
    by (simp only: projects_lower projects_limit)
  have j: "str_join '', '' (map (qualify ''projects'') (columns_of ''projects'')) =
      ''projects.project_id, projects.name, projects.department_id, '' @
      ''projects.start_date, projects.end_date, projects.budget, projects.status''"
    by (simp add: columns_of_def table_columns_def qualify_def)
  from select_all_fallback [of id word_tokens "''projects''" "''projects''",
      OF valid_order_id e c a g o l]
  have "convert_to_sql id word_tokens ''projects'' =
     Inr (''SELECT '' @ (''projects.project_id, projects.name, projects.department_id, '' @
      ''projects.start_date, projects.end_date, projects.budget, projects.status'') @ NL @
          ''FROM projects'')"
    by (simp add: j)
  then show ?thesis using e c a g o l valid_order_id by simp
qed

text \<open>The text \<open>departments\<close> names one table, and the column \<open>department\<close> of
  \<open>employees\<close> occurs in it: a column is matched, the fallback does not run, and a
  second table is joined.\<close>

lemma departments_lower: "str_lower ''departments'' = ''departments''"
  by (simp add: str_lower_def lower_char_def)

lemma departments_tokens: "word_tokens ''departments'' = [plain_token ''departments'']"
  by (simp add: word_tokens_def str_split.simps)

lemma departments_entities:
  "match_entities [plain_token ''departments''] =
     ([''departments'', ''employees''], [''employees.department''])"
  by (simp add: entity_eval_defs)

lemma departments_aggregates: "aggregate_list ''departments'' = []"
  by (simp add: aggregate_list_def aggregate_pattern_pairs_def aggregate_patterns_def)

lemma departments_groups: "group_list ''departments'' = []"
  by (simp add: group_list_def regex_eval_defs)

lemma departments_order: "order_list ''departments'' = []"
  by (simp add: regex_eval_defs)

lemma departments_limit: "re_search limit_match_at ''departments'' = None"
  by (simp add: regex_eval_defs)

lemma join_departments_employees:
  "join_clauses ''departments'' [''employees''] =
     Inr (''JOIN employees ON departments.name = employees.department'' @ NL)"
  by (simp add: table_relationships_def)

theorem departments_not_select_all:
  "str_in ''departments'' ''departments'' \<and> \<not> str_in ''employees'' ''departments'' \<and>
   \<not> str_in ''projects'' ''departments'' \<and>
   where_conds (parse_query id word_tokens (str_lower ''departments'')) = [] \<and>
   aggregates (parse_query id word_tokens (str_lower ''departments'')) = [] \<and>
   group_by (parse_query id word_tokens (str_lower ''departments'')) = [] \<and>
   order_by (parse_query id word_tokens (str_lower ''departments'')) = [] \<and>
   limit (parse_query id word_tokens (str_lower ''departments'')) = None \<and>
   sel_columns (parse_query id word_tokens (str_lower ''departments'')) =
     [''employees.department''] \<and>
   convert_to_sql id word_tokens ''departments'' =
     Inr (''SELECT employees.department'' @ NL @ ''FROM departments'' @ NL @
          ''JOIN employees ON departments.name = employees.department'')"
proof -
  let ?t = "''departments''"
  have e: "match_entities (word_tokens (str_lower ?t)) =
      ([''departments'', ''employees''], [''employees.department''])"
    by (simp only: departments_lower departments_tokens departments_entities)
  have c: "condition_list (word_tokens (str_lower ?t)) = []"
    by (simp add: departments_lower departments_tokens is_trigger_def plain_token_def)
  have a: "aggregate_list (str_lower ?t) = []"
    by (simp only: departments_lower departments_aggregates)
  have g: "group_list (str_lower ?t) = []"
    by (simp only: departments_lower departments_groups)
  have o: "order_list (str_lower ?t) = []"
    by (simp only: departments_lower departments_order)
  have l: "re_search limit_match_at (str_lower ?t) = None"
    by (simp only: departments_lower departments_limit)
  have cols: "sel_columns (parse_query id word_tokens (str_lower ?t)) = [''employees.department'']"
    by (simp add: parse_query_columns e)
  have "convert_to_sql id word_tokens ?t =
     Inr (str_strip ((''SELECT employees.department'' @ NL @ ''FROM departments'' @ NL @
          ''JOIN employees ON departments.name = employees.department'') @ NL))"
    using convert_built [of id word_tokens ?t "''departments''" "[''employees'']"
        "''JOIN employees ON departments.name = employees.department'' @ NL" "[]"]
      join_departments_employees e c a g o l cols
    by (simp add: parsed_clauses where_clause_def)
  moreover have "str_strip ((''SELECT employees.department'' @ NL @ ''FROM departments'' @ NL @
          ''JOIN employees ON departments.name = employees.department'') @ NL) =
     ''SELECT employees.department'' @ NL @ ''FROM departments'' @ NL @
          ''JOIN employees ON departments.name = employees.department''"
    by (intro str_strip_exact) (simp_all add: is_space_def)
  ultimately show ?thesis using c a g o l cols
    by (simp add: parse_query_where parse_query_aggregates parse_query_group_by
        parse_query_order_by parse_query_limit str_lower_idem)
qed

section \<open>The iteration order of the sets\<close>

lemma parse_query_order_cong:
  assumes "all_columns (ord1 (fst (match_entities (nlp text)))) =
           all_columns (ord2 (fst (match_entities (nlp text))))"
  shows "parse_query ord1 nlp text = parse_query ord2 nlp text"
  using assms by (auto simp: parse_query_def extract_entities_def split: prod.splits)

lemma build_order_cong:
  assumes "ord1 (sel_tables comps) = ord2 (sel_tables comps)"
    and "select_clause ord1 comps = select_clause ord2 comps"
  shows "build_sql_query ord1 comps = build_sql_query ord2 comps"
  unfolding build_sql_query_def assms by (rule refl)

lemma valid_order_short:
  assumes "valid_order ord1" and "valid_order ord2" and "length xs \<le> 1"
  shows "ord1 xs = ord2 xs"
proof (cases xs)
  case Nil
  with assms show ?thesis by (simp add: valid_order_nil)
next
  case (Cons x ys)
  with assms(3) have "xs = [x]" by simp
  with assms show ?thesis by (simp add: valid_order_single)
qed

text \<open>
  Claim C5, as the code has it. The SQL depends on the order in which Python iterates the
  tables set and the columns set, which is not fixed from one interpreter process to the
  next. Two iteration orders give the same result when at most one table was matched and
  the select list does not come from a set of several columns: it comes from the
  aggregates, or exactly one column was matched.
\<close>

theorem order_independent_translation:
  assumes "valid_order ord1" and "valid_order ord2"
    and "length (fst (match_entities (nlp (str_lower text)))) \<le> 1"
    and "aggregate_list (str_lower text) \<noteq> [] \<or>
         length (snd (match_entities (nlp (str_lower text)))) = 1"
  shows "convert_to_sql ord1 nlp text = convert_to_sql ord2 nlp text"
proof -
  let ?M = "match_entities (nlp (str_lower text))"
  have tabs: "ord1 (fst ?M) = ord2 (fst ?M)"
    using assms(1-3) by (rule valid_order_short)
  then have p: "parse_query ord1 nlp (str_lower text) = parse_query ord2 nlp (str_lower text)"
    by (intro parse_query_order_cong) simp
  let ?comps = "parse_query ord2 nlp (str_lower text)"
  have t: "ord1 (sel_tables ?comps) = ord2 (sel_tables ?comps)"
    using tabs by (simp add: parse_query_tables)
  have s: "select_clause ord1 ?comps = select_clause ord2 ?comps"
  proof (cases "aggregate_list (str_lower text) \<noteq> []")
    case True
    then show ?thesis
      by (simp add: select_clause_def parse_query_aggregates str_lower_idem)
  next
    case False
    with assms(4) have one: "length (snd ?M) = 1" by simp
    then have "snd ?M \<noteq> []" by auto
    then have "sel_columns ?comps = snd ?M" by (simp add: parse_query_columns)
    moreover from one have "ord1 (snd ?M) = ord2 (snd ?M)"
      using assms(1,2) by (intro valid_order_short) simp_all
    ultimately show ?thesis by (simp add: select_clause_def)
  qed
  from build_order_cong [OF t s] p show ?thesis by (simp add: convert_to_sql_def)
qed

lemma salary_lower: "str_lower ''salary'' = ''salary''"
  by (simp add: str_lower_def lower_char_def)

lemma salary_tokens: "word_tokens ''salary'' = [plain_token ''salary'']"
  by (simp add: word_tokens_def str_split.simps)

lemma salary_entities:
  "match_entities [plain_token ''salary''] = ([''employees''], [''employees.salary''])"
  by (simp add: entity_eval_defs)

theorem order_independent_translation_witness:
  "valid_order id \<and> valid_order rev \<and>
   length (fst (match_entities (word_tokens (str_lower ''salary'')))) \<le> 1 \<and>
   length (snd (match_entities (word_tokens (str_lower ''salary'')))) = 1 \<and>
   convert_to_sql id word_tokens ''salary'' = convert_to_sql rev word_tokens ''salary''"
proof -
  have e: "match_entities (word_tokens (str_lower ''salary'')) =
      ([''employees''], [''employees.salary''])"
    by (simp only: salary_lower salary_tokens salary_entities)
  have a: "length (fst (match_entities (word_tokens (str_lower ''salary'')))) \<le> 1"
    and b: "length (snd (match_entities (word_tokens (str_lower ''salary'')))) = 1"
    by (simp_all add: e)
  from order_independent_translation [of id rev word_tokens "''salary''",
      OF valid_order_id valid_order_rev a] b
  show ?thesis using a valid_order_id valid_order_rev by simp
qed

text \<open>The token \<open>departments\<close> puts two tables into the set; which of them is the
  anchor of the FROM clause is decided by the iteration order.\<close>

lemma join_employees_departments:
  "join_clauses ''employees'' [''departments''] =
     Inr (''JOIN departments ON employees.department = departments.name'' @ NL)"
  by (simp add: table_relationships_def)

lemma departments_parsed:
  "match_entities (word_tokens (str_lower ''departments'')) =
      ([''departments'', ''employees''], [''employees.department''])"
  "condition_list (word_tokens (str_lower ''departments'')) = []"
  "aggregate_list (str_lower ''departments'') = []"
  "group_list (str_lower ''departments'') = []"
  "order_list (str_lower ''departments'') = []"
  "re_search limit_match_at (str_lower ''departments'') = None"
  by (simp_all only: departments_lower departments_tokens departments_entities
      departments_aggregates departments_groups departments_order departments_limit)
    (simp add: is_trigger_def plain_token_def)

lemma departments_sql_id:
  "convert_to_sql id word_tokens ''departments'' =
     Inr (''SELECT employees.department'' @ NL @ ''FROM departments'' @ NL @
          ''JOIN employees ON departments.name = employees.department'')"
proof -
  have "convert_to_sql id word_tokens ''departments'' =
     Inr (str_strip ((''SELECT employees.department'' @ NL @ ''FROM departments'' @ NL @
          ''JOIN employees ON departments.name = employees.department'') @ NL))"
    using convert_built [of id word_tokens "''departments''" "''departments''" "[''employees'']"
        "''JOIN employees ON departments.name = employees.department'' @ NL" "[]"]
      join_departments_employees
    by (simp add: parsed_clauses where_clause_def departments_parsed parse_query_columns)
  moreover have "str_strip ((''SELECT employees.department'' @ NL @ ''FROM departments'' @ NL @
          ''JOIN employees ON departments.name = employees.department'') @ NL) =
     ''SELECT employees.department'' @ NL @ ''FROM departments'' @ NL @
          ''JOIN employees ON departments.name = employees.department''"
    by (intro str_strip_exact) (simp_all add: is_space_def)
  ultimately show ?thesis by simp
qed

lemma departments_sql_rev:
  "convert_to_sql rev word_tokens ''departments'' =
     Inr (''SELECT employees.department'' @ NL @ ''FROM employees'' @ NL @
          ''JOIN departments ON employees.department = departments.name'')"
proof -
  have "convert_to_sql rev word_tokens ''departments'' =
     Inr (str_strip ((''SELECT employees.department'' @ NL @ ''FROM employees'' @ NL @
          ''JOIN departments ON employees.department = departments.name'') @ NL))"
    using convert_built [of rev word_tokens "''departments''" "''employees''" "[''departments'']"
        "''JOIN departments ON employees.department = departments.name'' @ NL" "[]"]
      join_employees_departments
    by (simp add: parsed_clauses where_clause_def departments_parsed parse_query_columns)
  moreover have "str_strip ((''SELECT employees.department'' @ NL @ ''FROM employees'' @ NL @
          ''JOIN departments ON employees.department = departments.name'') @ NL) =
     ''SELECT employees.department'' @ NL @ ''FROM employees'' @ NL @
          ''JOIN departments ON employees.department = departments.name''"
    by (intro str_strip_exact) (simp_all add: is_space_def)
  ultimately show ?thesis by simp
qed

theorem anchor_follows_set_order:
  "valid_order id \<and> valid_order rev \<and>
   convert_to_sql id word_tokens ''departments'' =
     Inr (''SELECT employees.department'' @ NL @ ''FROM departments'' @ NL @
          ''JOIN employees ON departments.name = employees.department'') \<and>
   convert_to_sql rev word_tokens ''departments'' =
     Inr (''SELECT employees.department'' @ NL @ ''FROM employees'' @ NL @
          ''JOIN departments ON employees.department = departments.name'') \<and>
   convert_to_sql id word_tokens ''departments'' \<noteq> convert_to_sql rev word_tokens ''departments''"
  by (simp add: departments_sql_id departments_sql_rev valid_order_id valid_order_rev)

end
